theory Spec2Isabelle
  imports Main
begin

section \<open>Values of the host language\<close>

text \<open>
  The module \<open>js-currency-converter.js\<close> keeps its state in four variables of a closure
  (\<open>SETTINGS\<close>, \<open>CACHED_RATES\<close>, \<open>CONVERSIONS_IN_PROGRESS\<close> and the deferreds it has
  created) and talks to three collaborators: the clock (\<open>new Date()\<close>), the browser's
  \<open>localStorage\<close> and \<open>$.get\<close>. Numbers are kept abstract (a type \<open>'n\<close> with a
  multiplication), errors of the remote source are an arbitrary type \<open>'e\<close>.
\<close>

datatype js_exception = TypeError | SyntaxError | QuotaExceededError

datatype ('a, 'e) outcome = Success 'a | Failure 'e

subsection \<open>Settings and the argument of \<open>config\<close>\<close>

record settings =
  RATES_VALIDITY_HOURS :: int
  CACHE_TO_LOCAL_STORAGE :: bool
  LOCAL_STORAGE_VARIABLE_NAME :: string
  API_URL :: string

text \<open>An options object: each property is present (\<open>Some\<close>) or not.\<close>

record options =
  opt_RATES_VALIDITY_HOURS :: "int option"
  opt_CACHE_TO_LOCAL_STORAGE :: "bool option"
  opt_LOCAL_STORAGE_VARIABLE_NAME :: "string option"
  opt_API_URL :: "string option"

datatype js_value =
    JUndefined
  | JNull
  | JBoolean bool
  | JNumber int
  | JString string
  | JFunction
  | JObject options

text \<open>The own properties of a value; only an object has any.\<close>

fun properties :: "js_value \<Rightarrow> options" where
  "properties (JObject opts) = opts"
| "properties v =
     \<lparr>opt_RATES_VALIDITY_HOURS = None, opt_CACHE_TO_LOCAL_STORAGE = None,
      opt_LOCAL_STORAGE_VARIABLE_NAME = None, opt_API_URL = None\<rparr>"

definition HOURS :: int where
  "HOURS = 60 * 60 * 1000"

definition default_settings :: settings where
  "default_settings =
     \<lparr>RATES_VALIDITY_HOURS = HOURS * 24,
      CACHE_TO_LOCAL_STORAGE = True,
      LOCAL_STORAGE_VARIABLE_NAME = ''JS_CURRENCY_CONVERTER_CACHED_RATES'',
      API_URL = ''http://free.currencyconverterapi.com/api/v3/convert?compact=y&q=''\<rparr>"

text \<open>The operator \<open>typeof\<close>; \<open>typeof null\<close> is \<open>"object"\<close>.\<close>

fun typeof :: "js_value \<Rightarrow> string" where
  "typeof JUndefined = ''undefined''"
| "typeof JNull = ''object''"
| "typeof (JBoolean b) = ''boolean''"
| "typeof (JNumber n) = ''number''"
| "typeof (JString s) = ''string''"
| "typeof JFunction = ''function''"
| "typeof (JObject opts) = ''object''"

definition isObject :: "js_value \<Rightarrow> bool" where
  "isObject v = (v \<noteq> JNull \<and> typeof v = ''object'')"

text \<open>
  \<open>$.extend(target, object)\<close> copies every property that the object has onto the target
  and leaves the others as they are.
\<close>

definition jQuery_extend :: "settings \<Rightarrow> options \<Rightarrow> settings" where
  "jQuery_extend target opts =
     \<lparr>RATES_VALIDITY_HOURS =
        (case opt_RATES_VALIDITY_HOURS opts of Some v \<Rightarrow> v | None \<Rightarrow> RATES_VALIDITY_HOURS target),
      CACHE_TO_LOCAL_STORAGE =
        (case opt_CACHE_TO_LOCAL_STORAGE opts of Some v \<Rightarrow> v | None \<Rightarrow> CACHE_TO_LOCAL_STORAGE target),
      LOCAL_STORAGE_VARIABLE_NAME =
        (case opt_LOCAL_STORAGE_VARIABLE_NAME opts of Some v \<Rightarrow> v
         | None \<Rightarrow> LOCAL_STORAGE_VARIABLE_NAME target),
      API_URL = (case opt_API_URL opts of Some v \<Rightarrow> v | None \<Rightarrow> API_URL target)\<rparr>"

subsection \<open>Cached rates and their dates\<close>

text \<open>
  The \<open>date\<close> of a cached rate is a \<open>Date\<close> object when the rate was cached by this
  page, and the ISO text of that instant when the cache was read back from
  \<open>localStorage\<close>. Both carry the instant in milliseconds.
\<close>

datatype date_field = DateObject int | DateString int

record 'n cached_rate =
  rate_value :: 'n
  rate_date :: date_field

fun isString :: "date_field \<Rightarrow> bool" where
  "isString (DateString t) = True"
| "isString (DateObject t) = False"

fun getTime :: "date_field \<Rightarrow> int" where
  "getTime (DateObject t) = t"
| "getTime (DateString t) = t"

text \<open>\<open>new Date(text)\<close> parses the text back to a \<open>Date\<close> object.\<close>

fun new_Date :: "date_field \<Rightarrow> date_field" where
  "new_Date d = DateObject (getTime d)"

subsection \<open>The browser's \<open>localStorage\<close>\<close>

text \<open>
  An item is a text; the texts written here are the probe of
  \<open>isLocalStorageAvailable\<close> and the \<open>JSON.stringify\<close> of the cache, in which every
  date has become text. \<open>setItem\<close> throws when the browser refuses the write (storage
  disabled, quota exceeded): which writes are refused is a parameter of the storage.
\<close>

datatype 'n ls_item = ItemText string | ItemJSON "string \<rightharpoonup> 'n cached_rate"

record 'n local_storage =
  ls_items :: "string \<rightharpoonup> 'n ls_item"
  ls_refuses :: "string \<Rightarrow> 'n ls_item \<Rightarrow> bool"

definition setItem ::
  "string \<Rightarrow> 'n ls_item \<Rightarrow> 'n local_storage \<Rightarrow> js_exception + 'n local_storage" where
  "setItem key item ls =
     (if ls_refuses ls key item then Inl QuotaExceededError
      else Inr (ls\<lparr>ls_items := (ls_items ls)(key \<mapsto> item)\<rparr>))"

definition removeItem :: "string \<Rightarrow> 'n local_storage \<Rightarrow> 'n local_storage" where
  "removeItem key ls = ls\<lparr>ls_items := (ls_items ls)(key := None)\<rparr>"

definition JSON_stringify :: "(string \<rightharpoonup> 'n cached_rate) \<Rightarrow> 'n ls_item" where
  "JSON_stringify cache =
     ItemJSON (\<lambda>k. map_option (\<lambda>r. r\<lparr>rate_date := DateString (getTime (rate_date r))\<rparr>) (cache k))"

section \<open>Deferreds\<close>

text \<open>
  A jQuery deferred is pending or settled, and holds the callbacks registered on it in the
  order of their registration. The callbacks of this program are closures of four kinds:
  \<^item> \<open>RateSub d query\<close>: the pair \<open>.done(fetchOnSuccess).fail(oldRateFallback)\<close> that
    \<open>getRate\<close> registers on the promise of \<open>fetchQuote\<close>, closed over its deferred
    \<open>d\<close> and the \<open>query\<close>;
  \<^item> \<open>ConvSub d amount\<close>: the pair \<open>.done(onSuccess).fail(onError)\<close> that
    \<open>convertAmount\<close> registers on the promise of \<open>getRate\<close>;
  \<^item> a handler of the calling page, \<open>.done(f)\<close> or \<open>.fail(f)\<close>, where \<open>f\<close> asks
    \<open>fetchQuote\<close> for a pair again and keeps the promise it gets.
\<close>

datatype action = Requote "string option" "string option"

datatype handler = OnDone action | OnFail action

datatype fetch_sub = RateSub nat string | FetchHandler handler

datatype 'n rate_sub = ConvSub nat 'n | RateHandler handler

record ('a, 'e, 'k) deferred =
  status :: "('a, 'e) outcome option"
  subs :: "'k list"

definition new_Deferred :: "('a, 'e, 'k) deferred" where
  "new_Deferred = \<lparr>status = None, subs = []\<rparr>"

text \<open>The object that \<open>getRate\<close> resolves with; \<open>convertAmount\<close> adds \<open>value\<close> to it.\<close>

record 'n conversion =
  expired :: bool
  rate :: 'n
  converted :: "'n option"

text \<open>A request sent with \<open>$.get\<close>, with the variables its callbacks are closed over.\<close>

record xhr =
  xhr_url :: string
  xhr_query :: string
  xhr_deferred :: nat
  xhr_completed :: bool

section \<open>The state of the module\<close>

text \<open>
  The three variables of the module, its collaborators and the deferreds it has created:
  \<^item> \<open>clock\<close> is the instant that \<open>new Date()\<close> returns, in milliseconds;
  \<^item> \<open>console\<close> holds the messages of \<open>console.error\<close>, \<open>uncaught\<close> the exceptions that
    left a callback of a request;
  \<^item> \<open>ajax\<close> lists every request sent with \<open>$.get\<close>, answered or not;
  \<^item> \<open>fetches\<close>, \<open>rates\<close> and \<open>conversions\<close> hold the deferreds created by \<open>fetchQuote\<close>,
    \<open>getRate\<close> and \<open>convertAmount\<close>; a promise is the index of its deferred;
  \<^item> \<open>handed\<close> lists the promises that handlers of the page were given by \<open>fetchQuote\<close>.
  A null or missing entry of \<open>CONVERSIONS_IN_PROGRESS\<close> is \<open>None\<close>: the module only tests
  the entry for truth.
\<close>

record ('n, 'e) state =
  SETTINGS :: settings
  CACHED_RATES :: "string \<rightharpoonup> 'n cached_rate"
  CONVERSIONS_IN_PROGRESS :: "string \<rightharpoonup> nat"
  clock :: int
  localStorage :: "'n local_storage"
  console :: "string list"
  uncaught :: "js_exception list"
  ajax :: "xhr list"
  fetches :: "('n, 'e, fetch_sub) deferred list"
  rates :: "('n conversion, 'e, 'n rate_sub) deferred list"
  conversions :: "('n conversion, 'e, handler) deferred list"
  handed :: "nat list"

section \<open>Utilities and helpers\<close>

definition isLocalStorageAvailable :: "'n local_storage \<Rightarrow> bool \<times> 'n local_storage" where
  "isLocalStorageAvailable ls =
     (let test = ''js-currency-test'' in
      case setItem test (ItemText test) ls of
        Inr ls' \<Rightarrow> (True, removeItem test ls')
      | Inl e \<Rightarrow> (False, ls))"

definition saveToLocalStorage ::
  "string \<Rightarrow> (string \<rightharpoonup> 'n cached_rate) \<Rightarrow> ('n, 'e) state \<Rightarrow> js_exception option \<times> ('n, 'e) state"
  where
  "saveToLocalStorage key val s =
     (case isLocalStorageAvailable (localStorage s) of
        (True, ls) \<Rightarrow>
          (case setItem key (JSON_stringify val) ls of
             Inr ls' \<Rightarrow> (None, s\<lparr>localStorage := ls'\<rparr>)
           | Inl e \<Rightarrow> (Some e, s\<lparr>localStorage := ls\<rparr>))
      | (False, ls) \<Rightarrow>
          (None, s\<lparr>localStorage := ls,
                   console := console s @
                     [''Caching rates to local storage failed. Local storage not available'']\<rparr>))"

text \<open>
  \<open>getFromLocalStorage\<close> returns the parsed item, \<open>null\<close> when there is none, and
  \<open>undefined\<close> (after logging) when the storage is not available; the caller replaces
  both by \<open>{}\<close>. \<open>JSON.parse\<close> throws on a text that is not JSON.
\<close>

definition getFromLocalStorage ::
  "string \<Rightarrow> 'n local_storage \<Rightarrow>
   js_exception + ((string \<rightharpoonup> 'n cached_rate) option \<times> 'n local_storage \<times> string list)" where
  "getFromLocalStorage key ls =
     (case isLocalStorageAvailable ls of
        (True, ls') \<Rightarrow>
          (case ls_items ls' key of
             None \<Rightarrow> Inr (None, ls', [])
           | Some (ItemJSON cache) \<Rightarrow> Inr (Some cache, ls', [])
           | Some (ItemText t) \<Rightarrow> Inl SyntaxError)
      | (False, ls') \<Rightarrow>
          Inr (None, ls',
               [''Retrieving rates from local storage failed. Local storage not available'']))"

definition setConversionInProgress ::
  "string \<Rightarrow> nat option \<Rightarrow> ('n, 'e) state \<Rightarrow> ('n, 'e) state" where
  "setConversionInProgress query promise s =
     s\<lparr>CONVERSIONS_IN_PROGRESS := (CONVERSIONS_IN_PROGRESS s)(query := promise)\<rparr>"

definition getConversionInProgress :: "('n, 'e) state \<Rightarrow> string \<Rightarrow> nat option" where
  "getConversionInProgress s query = CONVERSIONS_IN_PROGRESS s query"

text \<open>\<open>x || ''\<close>: an argument that is missing or empty is replaced by the empty text.\<close>

fun or_empty :: "string option \<Rightarrow> string" where
  "or_empty None = ''''"
| "or_empty (Some c) = (if c = '''' then '''' else c)"

definition toQuery :: "string option \<Rightarrow> string option \<Rightarrow> string" where
  "toQuery fromCurrency toCurrency = or_empty fromCurrency @ ''_'' @ or_empty toCurrency"

definition isRateCached :: "('n, 'e) state \<Rightarrow> string \<Rightarrow> bool" where
  "isRateCached s queryCode = (case CACHED_RATES s queryCode of Some r \<Rightarrow> True | None \<Rightarrow> False)"

definition isRateExpired :: "('n, 'e) state \<Rightarrow> 'n cached_rate \<Rightarrow> bool" where
  "isRateExpired s r =
     (let compareDate = (if isString (rate_date r) then new_Date (rate_date r) else rate_date r)
      in clock s - getTime compareDate > RATES_VALIDITY_HOURS (SETTINGS s))"

definition isRateValid :: "('n, 'e) state \<Rightarrow> string \<Rightarrow> bool" where
  "isRateValid s queryCode =
     (case CACHED_RATES s queryCode of Some r \<Rightarrow> \<not> isRateExpired s r | None \<Rightarrow> False)"

definition cacheRate ::
  "string \<Rightarrow> 'n \<Rightarrow> ('n, 'e) state \<Rightarrow> js_exception option \<times> ('n, 'e) state" where
  "cacheRate rateName val s =
     (let s' = s\<lparr>CACHED_RATES := (CACHED_RATES s)
                  (rateName \<mapsto> \<lparr>rate_value = val, rate_date = DateObject (clock s)\<rparr>)\<rparr>
      in if CACHE_TO_LOCAL_STORAGE (SETTINGS s')
         then saveToLocalStorage (LOCAL_STORAGE_VARIABLE_NAME (SETTINGS s')) (CACHED_RATES s') s'
         else (None, s'))"

section \<open>Exposed functions\<close>

definition config :: "js_value \<Rightarrow> ('n, 'e) state \<Rightarrow> ('n, 'e) state" where
  "config opts s =
     (if isObject opts then s\<lparr>SETTINGS := jQuery_extend (SETTINGS s) (properties opts)\<rparr> else s)"

text \<open>
  \<open>fetchQuote\<close> hands out the promise registered for the query when there is one;
  otherwise it sends the request, registers its own promise and returns it. The callbacks
  of the request are kept with the request (\<open>xhr_query\<close>, \<open>xhr_deferred\<close>).
\<close>

definition fetchQuote ::
  "string option \<Rightarrow> string option \<Rightarrow> ('n, 'e) state \<Rightarrow> nat \<times> ('n, 'e) state" where
  "fetchQuote fromCurrency toCurrency s =
     (let query = toQuery fromCurrency toCurrency in
      case getConversionInProgress s query of
        Some inProgressPromise \<Rightarrow> (inProgressPromise, s)
      | None \<Rightarrow>
          (let deferred = length (fetches s);
               s' = s\<lparr>ajax := ajax s @
                         [\<lparr>xhr_url = API_URL (SETTINGS s) @ query, xhr_query = query,
                           xhr_deferred = deferred, xhr_completed = False\<rparr>],
                       fetches := fetches s @ [new_Deferred]\<rparr>
           in (deferred, setConversionInProgress query (Some deferred) s')))"

subsection \<open>Settling a deferred\<close>

fun is_success :: "('a, 'e) outcome \<Rightarrow> bool" where
  "is_success (Success v) = True"
| "is_success (Failure e) = False"

fun run_action :: "action \<Rightarrow> ('n, 'e) state \<Rightarrow> ('n, 'e) state" where
  "run_action (Requote fromCurrency toCurrency) s =
     (let (promise, s') = fetchQuote fromCurrency toCurrency s
      in s'\<lparr>handed := handed s' @ [promise]\<rparr>)"

fun run_handler :: "bool \<Rightarrow> handler \<Rightarrow> ('n, 'e) state \<Rightarrow> ('n, 'e) state" where
  "run_handler ok (OnDone a) s = (if ok then run_action a s else s)"
| "run_handler ok (OnFail a) s = (if ok then s else run_action a s)"

text \<open>
  \<open>resolve\<close> and \<open>reject\<close> act on a pending deferred only: they record the outcome and
  call the registered callbacks in the order of registration.
\<close>

definition settle_conversion ::
  "nat \<Rightarrow> ('n conversion, 'e) outcome \<Rightarrow> ('n, 'e) state \<Rightarrow> ('n, 'e) state" where
  "settle_conversion d out s =
     (if d < length (conversions s) \<and> status (conversions s ! d) = None
      then fold (run_handler (is_success out)) (subs (conversions s ! d))
             (s\<lparr>conversions := (conversions s)[d := \<lparr>status = Some out, subs = []\<rparr>]\<rparr>)
      else s)"

definition convertAmount_onSuccess ::
  "'n::times \<Rightarrow> nat \<Rightarrow> 'n conversion \<Rightarrow> ('n, 'e) state \<Rightarrow> ('n, 'e) state" where
  "convertAmount_onSuccess amount deferred data s =
     settle_conversion deferred (Success (data\<lparr>converted := Some (amount * rate data)\<rparr>)) s"

definition convertAmount_onError :: "nat \<Rightarrow> 'e \<Rightarrow> ('n, 'e) state \<Rightarrow> ('n, 'e) state" where
  "convertAmount_onError deferred error s = settle_conversion deferred (Failure error) s"

fun fire_rate_sub ::
  "('n::times conversion, 'e) outcome \<Rightarrow> 'n rate_sub \<Rightarrow> ('n, 'e) state \<Rightarrow> ('n, 'e) state" where
  "fire_rate_sub (Success data) (ConvSub d amount) s = convertAmount_onSuccess amount d data s"
| "fire_rate_sub (Failure error) (ConvSub d amount) s = convertAmount_onError d error s"
| "fire_rate_sub out (RateHandler h) s = run_handler (is_success out) h s"

definition settle_rate ::
  "nat \<Rightarrow> ('n::times conversion, 'e) outcome \<Rightarrow> ('n, 'e) state \<Rightarrow> ('n, 'e) state" where
  "settle_rate d out s =
     (if d < length (rates s) \<and> status (rates s ! d) = None
      then fold (fire_rate_sub out) (subs (rates s ! d))
             (s\<lparr>rates := (rates s)[d := \<lparr>status = Some out, subs = []\<rparr>]\<rparr>)
      else s)"

definition resolveRate :: "nat \<Rightarrow> bool \<Rightarrow> 'n::times \<Rightarrow> ('n, 'e) state \<Rightarrow> ('n, 'e) state" where
  "resolveRate deferred isExpired rateValue s =
     settle_rate deferred (Success \<lparr>expired = isExpired, rate = rateValue, converted = None\<rparr>) s"

definition fetchOnSuccess :: "nat \<Rightarrow> 'n::times \<Rightarrow> ('n, 'e) state \<Rightarrow> ('n, 'e) state" where
  "fetchOnSuccess deferred r s = resolveRate deferred False r s"

definition oldRateFallback ::
  "nat \<Rightarrow> string \<Rightarrow> 'e \<Rightarrow> ('n::times, 'e) state \<Rightarrow> ('n, 'e) state" where
  "oldRateFallback deferred query error s =
     (if isRateCached s query
      then resolveRate deferred True (rate_value (the (CACHED_RATES s query))) s
      else settle_rate deferred (Failure error) s)"

fun fire_fetch_sub ::
  "('n::times, 'e) outcome \<Rightarrow> fetch_sub \<Rightarrow> ('n, 'e) state \<Rightarrow> ('n, 'e) state" where
  "fire_fetch_sub (Success r) (RateSub d query) s = fetchOnSuccess d r s"
| "fire_fetch_sub (Failure error) (RateSub d query) s = oldRateFallback d query error s"
| "fire_fetch_sub out (FetchHandler h) s = run_handler (is_success out) h s"

definition settle_fetch ::
  "nat \<Rightarrow> ('n::times, 'e) outcome \<Rightarrow> ('n, 'e) state \<Rightarrow> ('n, 'e) state" where
  "settle_fetch d out s =
     (if d < length (fetches s) \<and> status (fetches s ! d) = None
      then fold (fire_fetch_sub out) (subs (fetches s ! d))
             (s\<lparr>fetches := (fetches s)[d := \<lparr>status = Some out, subs = []\<rparr>]\<rparr>)
      else s)"

subsection \<open>Registering callbacks\<close>

text \<open>
  \<open>promise.done(f).fail(g)\<close>: on a pending promise the callbacks are queued, on a settled
  one the matching callback is called at once.
\<close>

definition subscribe_conversion :: "nat \<Rightarrow> handler \<Rightarrow> ('n, 'e) state \<Rightarrow> ('n, 'e) state" where
  "subscribe_conversion p h s =
     (if p < length (conversions s)
      then (case status (conversions s ! p) of
              None \<Rightarrow> s\<lparr>conversions := (conversions s)
                         [p := (conversions s ! p)\<lparr>subs := subs (conversions s ! p) @ [h]\<rparr>]\<rparr>
            | Some out \<Rightarrow> run_handler (is_success out) h s)
      else s)"

definition subscribe_rate ::
  "nat \<Rightarrow> 'n::times rate_sub \<Rightarrow> ('n, 'e) state \<Rightarrow> ('n, 'e) state" where
  "subscribe_rate p sub s =
     (if p < length (rates s)
      then (case status (rates s ! p) of
              None \<Rightarrow> s\<lparr>rates := (rates s)[p := (rates s ! p)\<lparr>subs := subs (rates s ! p) @ [sub]\<rparr>]\<rparr>
            | Some out \<Rightarrow> fire_rate_sub out sub s)
      else s)"

definition subscribe_fetch ::
  "nat \<Rightarrow> fetch_sub \<Rightarrow> ('n::times, 'e) state \<Rightarrow> ('n, 'e) state" where
  "subscribe_fetch p sub s =
     (if p < length (fetches s)
      then (case status (fetches s ! p) of
              None \<Rightarrow> s\<lparr>fetches := (fetches s)
                         [p := (fetches s ! p)\<lparr>subs := subs (fetches s ! p) @ [sub]\<rparr>]\<rparr>
            | Some out \<Rightarrow> fire_fetch_sub out sub s)
      else s)"

subsection \<open>\<open>getRate\<close> and \<open>convertAmount\<close>\<close>

definition getRate ::
  "string option \<Rightarrow> string option \<Rightarrow> ('n::times, 'e) state \<Rightarrow> nat \<times> ('n, 'e) state" where
  "getRate fromCurrency toCurrency s =
     (let deferred = length (rates s);
          s0 = s\<lparr>rates := rates s @ [new_Deferred]\<rparr>;
          query = toQuery fromCurrency toCurrency
      in if isRateValid s0 query
         then (deferred, resolveRate deferred False (rate_value (the (CACHED_RATES s0 query))) s0)
         else (let (promise, s1) = fetchQuote fromCurrency toCurrency s0
               in (deferred, subscribe_fetch promise (RateSub deferred query) s1)))"

definition convertAmount ::
  "'n \<Rightarrow> string option \<Rightarrow> string option \<Rightarrow> ('n::times, 'e) state \<Rightarrow> nat \<times> ('n, 'e) state" where
  "convertAmount amount fromCurrency toCurrency s =
     (let deferred = length (conversions s);
          s0 = s\<lparr>conversions := conversions s @ [new_Deferred]\<rparr>;
          (promise, s1) = getRate fromCurrency toCurrency s0
      in (deferred, subscribe_rate promise (ConvSub deferred amount) s1))"

section \<open>The remote source answers\<close>

text \<open>
  The callbacks that \<open>fetchQuote\<close> registers on its request with
  \<open>.done(onSuccess).fail(onError).always(onAlways)\<close>. The response is an object with the
  quote under the query; \<open>response[query].val\<close> throws when there is none. An exception
  thrown by a callback ends the delivery: the callbacks after it are not called.
\<close>

definition fetchQuote_onSuccess ::
  "xhr \<Rightarrow> (string \<rightharpoonup> 'n) \<Rightarrow> ('n::times, 'e) state \<Rightarrow> js_exception option \<times> ('n, 'e) state" where
  "fetchQuote_onSuccess x response s =
     (case response (xhr_query x) of
        None \<Rightarrow> (Some TypeError, s)
      | Some quote \<Rightarrow>
          (case cacheRate (xhr_query x) quote s of
             (Some e, s') \<Rightarrow> (Some e, s')
           | (None, s') \<Rightarrow> (None, settle_fetch (xhr_deferred x) (Success quote) s')))"

definition fetchQuote_onError :: "xhr \<Rightarrow> 'e \<Rightarrow> ('n::times, 'e) state \<Rightarrow> ('n, 'e) state" where
  "fetchQuote_onError x error s = settle_fetch (xhr_deferred x) (Failure error) s"

definition fetchQuote_onAlways :: "xhr \<Rightarrow> ('n, 'e) state \<Rightarrow> ('n, 'e) state" where
  "fetchQuote_onAlways x s = setConversionInProgress (xhr_query x) None s"

definition complete ::
  "nat \<Rightarrow> (string \<rightharpoonup> 'n, 'e) outcome \<Rightarrow> ('n::times, 'e) state \<Rightarrow> ('n, 'e) state" where
  "complete k result s =
     (if k < length (ajax s) \<and> \<not> xhr_completed (ajax s ! k)
      then (let x = ajax s ! k;
                s0 = s\<lparr>ajax := (ajax s)[k := x\<lparr>xhr_completed := True\<rparr>]\<rparr>
            in case result of
                 Success response \<Rightarrow>
                   (case fetchQuote_onSuccess x response s0 of
                      (Some e, s1) \<Rightarrow> s1\<lparr>uncaught := uncaught s1 @ [e]\<rparr>
                    | (None, s1) \<Rightarrow> fetchQuote_onAlways x s1)
               | Failure error \<Rightarrow> fetchQuote_onAlways x (fetchQuote_onError x error s0))
      else s)"

section \<open>Loading the module\<close>

definition startup :: "int \<Rightarrow> 'n local_storage \<Rightarrow> js_exception + ('n, 'e) state" where
  "startup now ls =
     (case (if CACHE_TO_LOCAL_STORAGE default_settings
            then getFromLocalStorage (LOCAL_STORAGE_VARIABLE_NAME default_settings) ls
            else Inr (None, ls, [])) of
        Inl e \<Rightarrow> Inl e
      | Inr (cache, ls', logged) \<Rightarrow>
          Inr \<lparr>SETTINGS = default_settings,
               CACHED_RATES = (case cache of Some c \<Rightarrow> c | None \<Rightarrow> Map.empty),
               CONVERSIONS_IN_PROGRESS = Map.empty,
               clock = now,
               localStorage = ls',
               console = logged,
               uncaught = [],
               ajax = [],
               fetches = [],
               rates = [],
               conversions = [],
               handed = []\<rparr>)"

section \<open>Auxiliary definitions\<close>

text \<open>
  The module as it is right after loading at time \<open>0\<close>, in a browser whose storage is
  empty and accepts every write.
\<close>

definition blank :: "('n, 'e) state" where
  "blank =
     \<lparr>SETTINGS = default_settings, CACHED_RATES = Map.empty, CONVERSIONS_IN_PROGRESS = Map.empty,
      clock = 0, localStorage = \<lparr>ls_items = Map.empty, ls_refuses = (\<lambda>k i. False)\<rparr>,
      console = [], uncaught = [], ajax = [], fetches = [], rates = [], conversions = [],
      handed = []\<rparr>"

text \<open>
  What the callbacks of \<open>getRate\<close> settle its deferred with, given the cache at the time
  they run: \<open>fetchOnSuccess\<close> on a quote, \<open>oldRateFallback\<close> on an error.
\<close>

fun rate_outcome ::
  "(string \<rightharpoonup> 'n cached_rate) \<Rightarrow> ('n, 'e) outcome \<Rightarrow> string \<Rightarrow> ('n conversion, 'e) outcome" where
  "rate_outcome cache (Success r) query = Success \<lparr>expired = False, rate = r, converted = None\<rparr>"
| "rate_outcome cache (Failure error) query =
     (case cache query of
        Some c \<Rightarrow> Success \<lparr>expired = True, rate = rate_value c, converted = None\<rparr>
      | None \<Rightarrow> Failure error)"

text \<open>The query of the first callback of \<open>getRate\<close> in a list that is closed over \<open>d\<close>.\<close>

fun first_query :: "nat \<Rightarrow> fetch_sub list \<Rightarrow> string option" where
  "first_query d [] = None"
| "first_query d (RateSub d' query # cbs) = (if d' = d then Some query else first_query d cbs)"
| "first_query d (FetchHandler h # cbs) = first_query d cbs"

text \<open>
  Every callback of \<open>getRate\<close> that is registered on a promise of \<open>fetchQuote\<close> is
  closed over a deferred that exists. This holds in every state the module can reach,
  since a callback is registered after its deferred was created.
\<close>

fun rate_sub_below :: "nat \<Rightarrow> fetch_sub \<Rightarrow> bool" where
  "rate_sub_below n (RateSub d query) = (d < n)"
| "rate_sub_below n (FetchHandler h) = True"

definition rate_subs_closed :: "('n, 'e) state \<Rightarrow> bool" where
  "rate_subs_closed s =
     list_all (\<lambda>D. list_all (rate_sub_below (length (rates s))) (subs D)) (fetches s)"


text \<open>
  What the callbacks of \<open>convertAmount\<close> settle its deferred with: \<open>onSuccess\<close> adds the
  converted amount to the object of \<open>getRate\<close>, \<open>onError\<close> passes the error on.
\<close>

fun conv_outcome :: "'n::times \<Rightarrow> ('n conversion, 'e) outcome \<Rightarrow> ('n conversion, 'e) outcome" where
  "conv_outcome amount (Success data) = Success (data\<lparr>converted := Some (amount * rate data)\<rparr>)"
| "conv_outcome amount (Failure error) = Failure error"

text \<open>The amount of the first callback of \<open>convertAmount\<close> in a list that is closed over \<open>c\<close>.\<close>

fun first_amount :: "nat \<Rightarrow> 'n rate_sub list \<Rightarrow> 'n option" where
  "first_amount c [] = None"
| "first_amount c (ConvSub c' amount # cbs) = (if c' = c then Some amount else first_amount c cbs)"
| "first_amount c (RateHandler h # cbs) = first_amount c cbs"

text \<open>
  Every callback of \<open>convertAmount\<close> that is registered on a deferred of \<open>getRate\<close> is
  closed over a deferred that exists; this holds in every state the module can reach.
\<close>

fun conv_sub_below :: "nat \<Rightarrow> 'n rate_sub \<Rightarrow> bool" where
  "conv_sub_below n (ConvSub c amount) = (c < n)"
| "conv_sub_below n (RateHandler h) = True"

definition conv_subs_closed :: "('n, 'e) state \<Rightarrow> bool" where
  "conv_subs_closed s =
     list_all (\<lambda>D. list_all (conv_sub_below (length (conversions s))) (subs D)) (rates s)"

text \<open>
  The deferred \<open>c\<close> of a \<open>convertAmount\<close> call follows the deferred \<open>r\<close> of its
  \<open>getRate\<close> call: both are pending, with the callback of \<open>c\<close> registered on \<open>r\<close> and
  nowhere else, or both are settled and \<open>c\<close> holds the converted outcome of \<open>r\<close>.
\<close>

definition linked :: "'n::times \<Rightarrow> nat \<Rightarrow> nat \<Rightarrow> ('n, 'e) state \<Rightarrow> bool" where
  "linked amount r c s \<longleftrightarrow>
     r < length (rates s) \<and> c < length (conversions s) \<and>
     status (conversions s ! c) = map_option (conv_outcome amount) (status (rates s ! r)) \<and>
     (status (rates s ! r) = None \<longrightarrow> subs (rates s ! r) = [ConvSub c amount]) \<and>
     (\<forall>r' < length (rates s). r' \<noteq> r \<longrightarrow> first_amount c (subs (rates s ! r')) = None)"

text \<open>
  A run of the module: the page calls the exposed functions, registers handlers on the
  promises it was given, time passes, and the remote source answers requests.
\<close>

datatype ('n, 'e) event =
    Tick int
  | Call_config js_value
  | Call_fetchQuote "string option" "string option"
  | Call_getRate "string option" "string option"
  | Call_convertAmount 'n "string option" "string option"
  | On_fetchQuote nat handler
  | On_getRate nat handler
  | On_convertAmount nat handler
  | Answer nat "(string \<rightharpoonup> 'n, 'e) outcome"

fun step :: "('n::times, 'e) event \<Rightarrow> ('n, 'e) state \<Rightarrow> ('n, 'e) state" where
  "step (Tick now) s = s\<lparr>clock := now\<rparr>"
| "step (Call_config opts) s = config opts s"
| "step (Call_fetchQuote f t) s = snd (fetchQuote f t s)"
| "step (Call_getRate f t) s = snd (getRate f t s)"
| "step (Call_convertAmount amount f t) s = snd (convertAmount amount f t s)"
| "step (On_fetchQuote p h) s = subscribe_fetch p (FetchHandler h) s"
| "step (On_getRate p h) s = subscribe_rate p (RateHandler h) s"
| "step (On_convertAmount p h) s = subscribe_conversion p h s"
| "step (Answer k result) s = complete k result s"

text \<open>Both kinds of registered callbacks are closed over deferreds that exist.\<close>

definition closed :: "('n, 'e) state \<Rightarrow> bool" where
  "closed s \<longleftrightarrow> rate_subs_closed s \<and> conv_subs_closed s"

section \<open>The pair key\<close>

text \<open>
  Claim C9. The key of a pair is the two currency codes joined by an underscore; it is a
  function of the pair, and for two empty codes (empty texts or missing arguments) it is
  exactly the text \<open>_\<close>.
\<close>

theorem toQuery_joins:
  "toQuery (Some a) (Some b) = a @ ''_'' @ b \<and>
   toQuery (Some '''') (Some '''') = ''_'' \<and> toQuery None None = ''_'' \<and>
   toQuery (Some ''USD'') (Some ''EUR'') = ''USD_EUR''"
  by (simp add: toQuery_def)

lemma fetchQuote_by_query:
  "toQuery f t = toQuery f' t' \<Longrightarrow> fetchQuote f t s = fetchQuote f' t' s"
  by (simp add: fetchQuote_def)

lemma getRate_by_query:
  "toQuery f t = toQuery f' t' \<Longrightarrow> getRate f t s = getRate f' t' s"
  unfolding getRate_def Let_def by (simp add: fetchQuote_by_query [of f t f' t'])

lemma convertAmount_by_query:
  "toQuery f t = toQuery f' t' \<Longrightarrow> convertAmount a f t s = convertAmount a f' t' s"
  unfolding convertAmount_def Let_def by (simp add: getRate_by_query [of f t f' t'])

text \<open>
  Claim C10. The key is not injective: the distinct pairs \<open>("A", "B_C")\<close> and
  \<open>("A_B", "C")\<close> have the same key, and since every operation reaches the cache and the
  table of requests in progress through the key only, \<open>fetchQuote\<close>, \<open>getRate\<close> and
  \<open>convertAmount\<close> do the same on both pairs in every state.
\<close>

theorem toQuery_not_injective:
  "(Some ''A'', Some ''B_C'') \<noteq> (Some ''A_B'', Some ''C'') \<and>
   toQuery (Some ''A'') (Some ''B_C'') = toQuery (Some ''A_B'') (Some ''C'') \<and>
   (\<forall>s :: ('n::times, 'e) state.
      fetchQuote (Some ''A'') (Some ''B_C'') s = fetchQuote (Some ''A_B'') (Some ''C'') s \<and>
      getRate (Some ''A'') (Some ''B_C'') s = getRate (Some ''A_B'') (Some ''C'') s \<and>
      (\<forall>amount. convertAmount amount (Some ''A'') (Some ''B_C'') s =
                convertAmount amount (Some ''A_B'') (Some ''C'') s))"
proof -
  have k: "toQuery (Some ''A'') (Some ''B_C'') = toQuery (Some ''A_B'') (Some ''C'')"
    by (simp add: toQuery_def)
  have d: "(Some ''A'', Some ''B_C'') \<noteq> (Some ''A_B'', Some ''C'')"
    by simp
  show ?thesis
    by (intro conjI allI d k fetchQuote_by_query [OF k] getRate_by_query [OF k]
        convertAmount_by_query [OF k])
qed

section \<open>Freshness\<close>

text \<open>
  Claim C5. A cached rate is expired exactly when its age exceeds the validity period, so
  it is fresh iff \<open>now - timestamp \<le> validity\<close>: a rate whose age equals the validity
  period is fresh. The classification is a function of the clock, the timestamp and the
  validity period alone, whether the timestamp is a date or the text of one.
\<close>

theorem isRateExpired_boundary:
  "(isRateExpired s r \<longleftrightarrow> \<not> clock s - getTime (rate_date r) \<le> RATES_VALIDITY_HOURS (SETTINGS s)) \<and>
   (isRateValid s q \<longleftrightarrow>
      (\<exists>r. CACHED_RATES s q = Some r \<and>
           clock s - getTime (rate_date r) \<le> RATES_VALIDITY_HOURS (SETTINGS s))) \<and>
   isRateValid (s\<lparr>clock := getTime (rate_date r) + RATES_VALIDITY_HOURS (SETTINGS s),
                  CACHED_RATES := (CACHED_RATES s)(q \<mapsto> r)\<rparr>) q"
  by (cases "rate_date r") (auto simp: isRateExpired_def isRateValid_def split: option.splits)

section \<open>Configuration\<close>

text \<open>
  Claim C8. \<open>config\<close> merges an object into the settings property by property (a
  property of the object replaces the setting, a setting without one stays), and leaves
  the state as it is for every other argument: \<open>undefined\<close>, \<open>null\<close>, a boolean, a number,
  a text or a function. It returns in every case.
\<close>

theorem config_merges:
  "config (JObject opts) s = s\<lparr>SETTINGS := jQuery_extend (SETTINGS s) opts\<rparr> \<and>
   RATES_VALIDITY_HOURS (SETTINGS (config (JObject opts) s)) =
     (case opt_RATES_VALIDITY_HOURS opts of Some v \<Rightarrow> v | None \<Rightarrow> RATES_VALIDITY_HOURS (SETTINGS s)) \<and>
   CACHE_TO_LOCAL_STORAGE (SETTINGS (config (JObject opts) s)) =
     (case opt_CACHE_TO_LOCAL_STORAGE opts of Some v \<Rightarrow> v | None \<Rightarrow> CACHE_TO_LOCAL_STORAGE (SETTINGS s)) \<and>
   LOCAL_STORAGE_VARIABLE_NAME (SETTINGS (config (JObject opts) s)) =
     (case opt_LOCAL_STORAGE_VARIABLE_NAME opts of Some v \<Rightarrow> v
      | None \<Rightarrow> LOCAL_STORAGE_VARIABLE_NAME (SETTINGS s)) \<and>
   API_URL (SETTINGS (config (JObject opts) s)) =
     (case opt_API_URL opts of Some v \<Rightarrow> v | None \<Rightarrow> API_URL (SETTINGS s)) \<and>
   config JUndefined s = s \<and> config JNull s = s \<and> config (JBoolean b) s = s \<and>
   config (JNumber n) s = s \<and> config (JString t) s = s \<and> config JFunction s = s"
  by (simp add: config_def isObject_def jQuery_extend_def)

section \<open>A fresh cache hit\<close>

lemma isRateExpired_rates [simp]:
  "isRateExpired (s\<lparr>rates := rs\<rparr>) r = isRateExpired s r"
  by (simp add: isRateExpired_def)

lemma isRateValid_rates [simp]:
  "isRateValid (s\<lparr>rates := rs\<rparr>) q = isRateValid s q"
  by (simp add: isRateValid_def split: option.splits)

lemma settle_rate_new:
  "settle_rate (length (rates s)) out (s\<lparr>rates := rates s @ [new_Deferred]\<rparr>) =
     s\<lparr>rates := rates s @ [\<lparr>status = Some out, subs = []\<rparr>]\<rparr>"
  by (simp add: settle_rate_def new_Deferred_def)

text \<open>
  Claim C4. When the key of the pair has a cached rate whose age is strictly within the
  validity period, \<open>getRate\<close> resolves at once with that rate and \<open>expired: false\<close>; the
  only change of the state is the new, resolved deferred, so no request is sent.
\<close>

theorem getRate_fresh_hit:
  assumes "CACHED_RATES s (toQuery f t) = Some r"
    and "clock s - getTime (rate_date r) < RATES_VALIDITY_HOURS (SETTINGS s)"
  shows "getRate f t s =
           (length (rates s),
            s\<lparr>rates := rates s @
                 [\<lparr>status = Some (Success \<lparr>expired = False, rate = rate_value r, converted = None\<rparr>),
                   subs = []\<rparr>]\<rparr>) \<and>
         ajax (snd (getRate f t s)) = ajax s"
proof -
  have v: "isRateValid s (toQuery f t)"
    using assms by (cases "rate_date r") (simp_all add: isRateValid_def isRateExpired_def)
  show ?thesis
    using v assms(1) by (simp add: getRate_def Let_def resolveRate_def settle_rate_new)
qed

theorem getRate_fresh_hit_witness:
  "getRate (Some ''USD'') (Some ''EUR'')
     ((blank :: (int, string) state)
        \<lparr>CACHED_RATES := [''USD_EUR'' \<mapsto> \<lparr>rate_value = 2, rate_date = DateString 1000\<rparr>],
          clock := 5000\<rparr>) =
   (0, (blank :: (int, string) state)
        \<lparr>CACHED_RATES := [''USD_EUR'' \<mapsto> \<lparr>rate_value = 2, rate_date = DateString 1000\<rparr>],
          clock := 5000,
          rates := [\<lparr>status = Some (Success \<lparr>expired = False, rate = 2, converted = None\<rparr>),
                     subs = []\<rparr>]\<rparr>)"
  using getRate_fresh_hit [of "(blank :: (int, string) state)
        \<lparr>CACHED_RATES := [''USD_EUR'' \<mapsto> \<lparr>rate_value = 2, rate_date = DateString 1000\<rparr>],
          clock := 5000\<rparr>" "Some ''USD''" "Some ''EUR''"
        "\<lparr>rate_value = 2, rate_date = DateString 1000\<rparr>"]
  by (simp add: toQuery_def blank_def default_settings_def HOURS_def)

section \<open>What settling a deferred leaves alone\<close>

lemma fold_frame:
  assumes "\<And>x s. F (f x s) = F s"
  shows "F (fold f xs s) = F s"
  by (induction xs arbitrary: s) (simp_all add: assms)

lemma run_action_frame [simp]:
  "CACHED_RATES (run_action a s) = CACHED_RATES s"
  "rates (run_action a s) = rates s"
  "conversions (run_action a s) = conversions s"
  by (cases a; simp add: fetchQuote_def setConversionInProgress_def Let_def
      split: option.splits prod.splits)+

lemma run_handler_frame [simp]:
  "CACHED_RATES (run_handler ok h s) = CACHED_RATES s"
  "rates (run_handler ok h s) = rates s"
  "conversions (run_handler ok h s) = conversions s"
  by (cases h; simp)+

lemma run_handlers_frame [simp]:
  "CACHED_RATES (fold (run_handler ok) hs s) = CACHED_RATES s"
  "rates (fold (run_handler ok) hs s) = rates s"
  "conversions (fold (run_handler ok) hs s) = conversions s"
  by (rule fold_frame, simp)+

lemma settle_conversion_frame [simp]:
  "CACHED_RATES (settle_conversion c out s) = CACHED_RATES s"
  "rates (settle_conversion c out s) = rates s"
  by (simp_all add: settle_conversion_def)

lemma settle_conversion_conversions:
  "conversions (settle_conversion c out s) =
     (if c < length (conversions s) \<and> status (conversions s ! c) = None
      then (conversions s)[c := \<lparr>status = Some out, subs = []\<rparr>] else conversions s)"
  by (simp add: settle_conversion_def)

lemma fire_rate_sub_frame [simp]:
  "CACHED_RATES (fire_rate_sub out sub s) = CACHED_RATES s"
  "rates (fire_rate_sub out sub s) = rates s"
  by (cases out; cases sub; simp add: convertAmount_onSuccess_def convertAmount_onError_def)+

lemma fire_rate_subs_frame [simp]:
  "CACHED_RATES (fold (fire_rate_sub out) cbs s) = CACHED_RATES s"
  "rates (fold (fire_rate_sub out) cbs s) = rates s"
  by (rule fold_frame, simp)+

lemma settle_rate_frame [simp]:
  "CACHED_RATES (settle_rate d out s) = CACHED_RATES s"
  by (simp add: settle_rate_def)

lemma settle_rate_rates:
  "rates (settle_rate d out s) =
     (if d < length (rates s) \<and> status (rates s ! d) = None
      then (rates s)[d := \<lparr>status = Some out, subs = []\<rparr>] else rates s)"
  by (simp add: settle_rate_def)

lemma fire_RateSub:
  "fire_fetch_sub out (RateSub d query) s =
     settle_rate d (rate_outcome (CACHED_RATES s) out query) s"
  by (cases out)
    (auto simp: fetchOnSuccess_def oldRateFallback_def resolveRate_def isRateCached_def
      split: option.splits)

lemma fire_fetch_sub_frame [simp]:
  "CACHED_RATES (fire_fetch_sub out sub s) = CACHED_RATES s"
  by (cases sub) (simp_all add: fire_RateSub)

lemma fire_fetch_sub_rates:
  "rates (fire_fetch_sub out sub s) =
     (case sub of
        RateSub d query \<Rightarrow>
          (if d < length (rates s) \<and> status (rates s ! d) = None
           then (rates s)[d := \<lparr>status = Some (rate_outcome (CACHED_RATES s) out query), subs = []\<rparr>]
           else rates s)
      | FetchHandler h \<Rightarrow> rates s)"
  by (cases sub) (simp_all add: fire_RateSub settle_rate_rates)

lemma fire_fetch_subs_frame [simp]:
  "CACHED_RATES (fold (fire_fetch_sub out) cbs s) = CACHED_RATES s"
  by (rule fold_frame) simp

lemma fire_fetch_sub_length [simp]:
  "length (rates (fire_fetch_sub out sub s)) = length (rates s)"
  by (simp add: fire_fetch_sub_rates split: fetch_sub.splits)

lemma fire_fetch_subs_length [simp]:
  "length (rates (fold (fire_fetch_sub out) cbs s)) = length (rates s)"
  by (rule fold_frame) simp

lemma fire_fetch_subs_status:
  "d < length (rates s) \<Longrightarrow>
   status (rates (fold (fire_fetch_sub out) cbs s) ! d) =
     (case status (rates s ! d) of
        Some v \<Rightarrow> Some v
      | None \<Rightarrow> map_option (rate_outcome (CACHED_RATES s) out) (first_query d cbs))"
proof (induction cbs arbitrary: s)
  case Nil
  then show ?case by (simp split: option.splits)
next
  case (Cons cb cbs)
  have len: "d < length (rates (fire_fetch_sub out cb s))"
    using Cons.prems by simp
  show ?case
  proof (cases cb)
    case (RateSub d' query)
    then show ?thesis
      using Cons.prems Cons.IH [OF len]
      by (auto simp: fire_fetch_sub_rates nth_list_update split: option.splits)
  next
    case (FetchHandler h)
    then show ?thesis
      using Cons.prems Cons.IH [OF len]
      by (auto simp: fire_fetch_sub_rates split: option.splits)
  qed
qed

lemma first_query_append:
  "first_query d (cbs @ cbs') =
     (case first_query d cbs of Some q \<Rightarrow> Some q | None \<Rightarrow> first_query d cbs')"
  by (induction d cbs rule: first_query.induct) simp_all

lemma first_query_closed:
  "list_all (rate_sub_below n) cbs \<Longrightarrow> first_query n cbs = None"
  by (induction n cbs rule: first_query.induct) auto

lemma rate_subs_closed_first_query:
  "rate_subs_closed s \<Longrightarrow> p < length (fetches s) \<Longrightarrow>
   first_query (length (rates s)) (subs (fetches s ! p)) = None"
  by (simp add: rate_subs_closed_def list_all_length first_query_closed)

lemma settle_fetch_status:
  assumes "p < length (fetches s)" and "status (fetches s ! p) = None"
    and "d < length (rates s)"
  shows "status (rates (settle_fetch p out s) ! d) =
           (case status (rates s ! d) of
              Some v \<Rightarrow> Some v
            | None \<Rightarrow> map_option (rate_outcome (CACHED_RATES s) out)
                        (first_query d (subs (fetches s ! p))))"
  using assms by (simp add: settle_fetch_def fire_fetch_subs_status cong: option.case_cong)

lemma complete_Failure_status:
  assumes "k < length (ajax s)" and "\<not> xhr_completed (ajax s ! k)"
    and "xhr_deferred (ajax s ! k) = p"
    and "p < length (fetches s)" and "status (fetches s ! p) = None"
    and "d < length (rates s)"
  shows "status (rates (complete k (Failure e) s) ! d) =
           (case status (rates s ! d) of
              Some v \<Rightarrow> Some v
            | None \<Rightarrow> map_option (rate_outcome (CACHED_RATES s) (Failure e))
                        (first_query d (subs (fetches s ! p))))"
  using assms
  by (simp add: complete_def Let_def fetchQuote_onAlways_def fetchQuote_onError_def
      setConversionInProgress_def settle_fetch_status cong: option.case_cong)

lemma getRate_joins:
  assumes "\<not> isRateValid s (toQuery f t)"
    and "getRate f t s = (d, s1)"
    and "fst (fetchQuote f t s) < length (fetches s1)"
    and "status (fetches s1 ! fst (fetchQuote f t s)) = None"
  shows "d = length (rates s) \<and> rates s1 = rates s @ [new_Deferred] \<and>
         CACHED_RATES s1 = CACHED_RATES s \<and>
         subs (fetches s1 ! fst (fetchQuote f t s)) =
           (if fst (fetchQuote f t s) < length (fetches s)
            then subs (fetches s ! fst (fetchQuote f t s)) else []) @
           [RateSub (length (rates s)) (toQuery f t)]"
proof (cases "getConversionInProgress s (toQuery f t)")
  case None
  then show ?thesis
    using assms
    by (auto simp: getRate_def fetchQuote_def Let_def getConversionInProgress_def
        setConversionInProgress_def subscribe_fetch_def new_Deferred_def nth_append)
next
  case (Some p)
  then show ?thesis
    using assms
    by (auto simp: getRate_def fetchQuote_def Let_def getConversionInProgress_def
        subscribe_fetch_def fire_RateSub settle_rate_def new_Deferred_def
        split: option.splits if_splits)
qed

section \<open>The stale fallback\<close>

text \<open>
  Claim C1. Let \<open>getRate\<close> be called for a pair that has no fresh rate in the cache, so
  that it joins the request for the key (a new one, or the one in progress, still
  pending). When that request fails, at any later time, the deferred of the call is
  resolved with the cached value and \<open>expired: true\<close> if the cache has a record for the
  key, whatever its age, and is rejected with the error of the request exactly when the
  cache has none. The state of the call is one in which the registered callbacks of
  \<open>getRate\<close> refer to existing deferreds, as in every run (\<open>run_closed\<close> below).
\<close>

theorem getRate_stale_fallback:
  assumes "\<not> isRateValid s (toQuery f t)"
    and "rate_subs_closed s"
    and "getRate f t s = (d, s1)"
    and "k < length (ajax s1)" and "\<not> xhr_completed (ajax s1 ! k)"
    and "xhr_deferred (ajax s1 ! k) = fst (fetchQuote f t s)"
    and "fst (fetchQuote f t s) < length (fetches s1)"
    and "status (fetches s1 ! fst (fetchQuote f t s)) = None"
  shows "status (rates (complete k (Failure e) (s1\<lparr>clock := later\<rparr>)) ! d) =
           (case CACHED_RATES s (toQuery f t) of
              Some c \<Rightarrow> Some (Success \<lparr>expired = True, rate = rate_value c, converted = None\<rparr>)
            | None \<Rightarrow> Some (Failure e)) \<and>
         (isRateCached s (toQuery f t) \<longleftrightarrow> CACHED_RATES s (toQuery f t) \<noteq> None)"
proof -
  let ?p = "fst (fetchQuote f t s)"
  let ?q = "toQuery f t"
  from getRate_joins [OF assms(1) assms(3) assms(7) assms(8)]
  have d: "d = length (rates s)" and r: "rates s1 = rates s @ [new_Deferred]"
    and c: "CACHED_RATES s1 = CACHED_RATES s"
    and cbs: "subs (fetches s1 ! ?p) =
           (if ?p < length (fetches s) then subs (fetches s ! ?p) else []) @ [RateSub d ?q]"
    by simp_all
  have fq: "first_query d (subs (fetches s1 ! ?p)) = Some ?q"
    using rate_subs_closed_first_query [OF assms(2), of ?p]
    by (simp add: cbs first_query_append d)
  have "status (rates (complete k (Failure e) (s1\<lparr>clock := later\<rparr>)) ! d) =
          Some (rate_outcome (CACHED_RATES s) (Failure e) ?q)"
    using complete_Failure_status [of k "s1\<lparr>clock := later\<rparr>" ?p d e] assms(4-8)
    by (simp add: r c d fq [unfolded d] new_Deferred_def)
  then show ?thesis
    by (simp add: isRateCached_def split: option.splits)
qed

lemmas model_defs =
  blank_def default_settings_def HOURS_def Let_def new_Deferred_def toQuery_def
  getConversionInProgress_def setConversionInProgress_def isRateCached_def isRateExpired_def
  isRateValid_def fetchQuote_def settle_conversion_def convertAmount_onSuccess_def
  convertAmount_onError_def settle_rate_def resolveRate_def fetchOnSuccess_def
  oldRateFallback_def settle_fetch_def subscribe_conversion_def subscribe_rate_def
  subscribe_fetch_def getRate_def convertAmount_def setItem_def removeItem_def
  JSON_stringify_def isLocalStorageAvailable_def saveToLocalStorage_def cacheRate_def
  fetchQuote_onSuccess_def fetchQuote_onError_def fetchQuote_onAlways_def complete_def

theorem getRate_stale_fallback_witness:
  "status (rates (complete 0 (Failure ''timeout'')
      ((snd (getRate (Some ''USD'') (Some ''EUR'')
          ((blank :: (int, string) state)
             \<lparr>CACHED_RATES := [''USD_EUR'' \<mapsto> \<lparr>rate_value = 2, rate_date = DateString 0\<rparr>],
               clock := 90000000\<rparr>)))\<lparr>clock := 90000001\<rparr>)) ! 0) =
   Some (Success \<lparr>expired = True, rate = 2, converted = None\<rparr>) \<and>
   status (rates (complete 0 (Failure ''timeout'')
      ((snd (getRate (Some ''USD'') (Some ''EUR'') (blank :: (int, string) state)))
         \<lparr>clock := 1\<rparr>)) ! 0) =
   Some (Failure ''timeout'')"
  using getRate_stale_fallback [of
      "(blank :: (int, string) state)
         \<lparr>CACHED_RATES := [''USD_EUR'' \<mapsto> \<lparr>rate_value = 2, rate_date = DateString 0\<rparr>],
           clock := 90000000\<rparr>"
      "Some ''USD''" "Some ''EUR''" 0
      "snd (getRate (Some ''USD'') (Some ''EUR'')
          ((blank :: (int, string) state)
             \<lparr>CACHED_RATES := [''USD_EUR'' \<mapsto> \<lparr>rate_value = 2, rate_date = DateString 0\<rparr>],
               clock := 90000000\<rparr>))"
      0 "''timeout''" 90000001]
    getRate_stale_fallback [of "blank :: (int, string) state" "Some ''USD''" "Some ''EUR''" 0
      "snd (getRate (Some ''USD'') (Some ''EUR'') (blank :: (int, string) state))"
      0 "''timeout''" 1]
  by (simp add: model_defs rate_subs_closed_def)

section \<open>Overlapping calls share one request\<close>






lemma cacheRate_frame [simp]:
  "rates (snd (cacheRate q v s)) = rates s"
  "fetches (snd (cacheRate q v s)) = fetches s"
  "uncaught (snd (cacheRate q v s)) = uncaught s"
  "ajax (snd (cacheRate q v s)) = ajax s"
  by (simp_all add: cacheRate_def saveToLocalStorage_def Let_def
      split: prod.splits sum.splits bool.splits)







section \<open>Converting an amount\<close>

lemma fire_ConvSub:
  "fire_rate_sub out (ConvSub c amount) s = settle_conversion c (conv_outcome amount out) s"
  by (cases out) (simp_all add: convertAmount_onSuccess_def convertAmount_onError_def)

lemma settle_conversion_length [simp]:
  "length (conversions (settle_conversion c out s)) = length (conversions s)"
  by (simp add: settle_conversion_conversions)

lemma fire_rate_sub_length [simp]:
  "length (conversions (fire_rate_sub out cb s)) = length (conversions s)"
  by (cases cb) (simp_all add: fire_ConvSub)

lemma fire_rate_subs_length [simp]:
  "length (conversions (fold (fire_rate_sub out) cbs s)) = length (conversions s)"
  by (rule fold_frame) simp

lemma fire_rate_subs_status:
  "c < length (conversions s) \<Longrightarrow>
   status (conversions (fold (fire_rate_sub out) cbs s) ! c) =
     (case status (conversions s ! c) of
        Some v \<Rightarrow> Some v
      | None \<Rightarrow> map_option (\<lambda>amount. conv_outcome amount out) (first_amount c cbs))"
proof (induction cbs arbitrary: s)
  case Nil
  then show ?case by (simp split: option.splits)
next
  case (Cons cb cbs)
  have len: "c < length (conversions (fire_rate_sub out cb s))"
    using Cons.prems by simp
  show ?case
  proof (cases cb)
    case (ConvSub c' amount)
    then show ?thesis
      using Cons.prems Cons.IH [OF len]
      by (auto simp: fire_ConvSub settle_conversion_conversions nth_list_update
          split: option.splits)
  next
    case (RateHandler h)
    then show ?thesis
      using Cons.prems Cons.IH [OF len]
      by (auto split: option.splits)
  qed
qed

lemma settle_rate_length [simp]:
  "length (conversions (settle_rate r out s)) = length (conversions s)"
  "length (rates (settle_rate r out s)) = length (rates s)"
  by (simp_all add: settle_rate_def)

lemma settle_rate_conversions:
  "c < length (conversions s) \<Longrightarrow>
   status (conversions (settle_rate r out s) ! c) =
     (if r < length (rates s) \<and> status (rates s ! r) = None
      then (case status (conversions s ! c) of
              Some v \<Rightarrow> Some v
            | None \<Rightarrow> map_option (\<lambda>amount. conv_outcome amount out)
                        (first_amount c (subs (rates s ! r))))
      else status (conversions s ! c))"
  by (simp add: settle_rate_def fire_rate_subs_status cong: option.case_cong)

lemma linked_settle_rate:
  assumes "linked amount r c s"
  shows "linked amount r c (settle_rate r' out s)"
proof (cases "r' < length (rates s) \<and> status (rates s ! r') = None")
  case False
  then show ?thesis
    using assms by (auto simp: settle_rate_def)
next
  case True
  show ?thesis
  proof (cases "r' = r")
    case True
    with \<open>r' < length (rates s) \<and> status (rates s ! r') = None\<close> show ?thesis
      using assms
      by (auto simp: linked_def settle_rate_conversions settle_rate_rates nth_list_update)
  next
    case False
    with True show ?thesis
      using assms
      by (auto simp: linked_def settle_rate_conversions settle_rate_rates nth_list_update
          split: option.splits)
  qed
qed

lemma linked_frame:
  "linked amount r c s \<Longrightarrow> rates s' = rates s \<Longrightarrow> conversions s' = conversions s \<Longrightarrow>
   linked amount r c s'"
  by (simp add: linked_def)

lemma linked_fire_fetch_sub:
  "linked amount r c s \<Longrightarrow> linked amount r c (fire_fetch_sub out cb s)"
proof (cases cb)
  case (RateSub d query)
  then show "linked amount r c s \<Longrightarrow> ?thesis"
    by (simp add: fire_RateSub linked_settle_rate)
next
  case (FetchHandler h)
  then show "linked amount r c s \<Longrightarrow> ?thesis"
    by (auto intro: linked_frame)
qed

lemma linked_fire_fetch_subs:
  "linked amount r c s \<Longrightarrow> linked amount r c (fold (fire_fetch_sub out) cbs s)"
  by (induction cbs arbitrary: s) (simp_all add: linked_fire_fetch_sub)

lemma linked_settle_fetch:
  assumes "linked amount r c s"
  shows "linked amount r c (settle_fetch p out s)"
proof (cases "p < length (fetches s) \<and> status (fetches s ! p) = None")
  case True
  have "linked amount r c (s\<lparr>fetches := (fetches s)[p := \<lparr>status = Some out, subs = []\<rparr>]\<rparr>)"
    by (rule linked_frame [OF assms]) simp_all
  then show ?thesis
    using True by (simp add: settle_fetch_def linked_fire_fetch_subs)
next
  case False
  then show ?thesis
    using assms by (auto simp: settle_fetch_def)
qed

lemma cacheRate_conversions [simp]:
  "conversions (snd (cacheRate q v s)) = conversions s"
  by (simp add: cacheRate_def saveToLocalStorage_def Let_def
      split: prod.splits sum.splits bool.splits)

lemma linked_complete:
  assumes "linked amount r c s"
  shows "linked amount r c (complete k result s)"
proof (cases "k < length (ajax s) \<and> \<not> xhr_completed (ajax s ! k)")
  case False
  then show ?thesis
    using assms by (auto simp: complete_def)
next
  case True
  let ?x = "ajax s ! k"
  let ?s0 = "s\<lparr>ajax := (ajax s)[k := ?x\<lparr>xhr_completed := True\<rparr>]\<rparr>"
  have l0: "linked amount r c ?s0"
    by (rule linked_frame [OF assms]) simp_all
  show ?thesis
  proof (cases result)
    case (Failure error)
    have "linked amount r c (fetchQuote_onAlways ?x (fetchQuote_onError ?x error ?s0))"
      by (rule linked_frame [OF linked_settle_fetch [OF l0, of "xhr_deferred ?x" "Failure error"]])
        (simp_all add: fetchQuote_onError_def fetchQuote_onAlways_def
          setConversionInProgress_def)
    then show ?thesis
      using True Failure by (simp add: complete_def Let_def)
  next
    case (Success response)
    show ?thesis
    proof (cases "response (xhr_query ?x)")
      case None
      have "linked amount r c (?s0\<lparr>uncaught := uncaught ?s0 @ [TypeError]\<rparr>)"
        by (rule linked_frame [OF l0]) simp_all
      then show ?thesis
        using True Success None
        by (simp add: complete_def Let_def fetchQuote_onSuccess_def)
    next
      case (Some v)
      obtain ex s1 where c: "cacheRate (xhr_query ?x) v ?s0 = (ex, s1)"
        by (cases "cacheRate (xhr_query ?x) v ?s0")
      have "rates s1 = rates ?s0" and "conversions s1 = conversions ?s0"
        using cacheRate_frame(1) [of "xhr_query ?x" v ?s0]
          cacheRate_conversions [of "xhr_query ?x" v ?s0]
        by (simp_all add: c)
      then have l1: "linked amount r c s1"
        by (rule linked_frame [OF l0])
      show ?thesis
      proof (cases ex)
        case None
        have "linked amount r c
                (fetchQuote_onAlways ?x (settle_fetch (xhr_deferred ?x) (Success v) s1))"
          by (rule linked_frame [OF linked_settle_fetch [OF l1, of "xhr_deferred ?x" "Success v"]])
            (simp_all add: fetchQuote_onAlways_def setConversionInProgress_def)
        then show ?thesis
          using True Success Some c None
          by (simp add: complete_def Let_def fetchQuote_onSuccess_def)
      next
        case (Some e)
        have "linked amount r c (s1\<lparr>uncaught := uncaught s1 @ [e]\<rparr>)"
          by (rule linked_frame [OF l1]) simp_all
        then show ?thesis
          using True Success \<open>response (xhr_query ?x) = Some v\<close> c Some
          by (simp add: complete_def Let_def fetchQuote_onSuccess_def)
      qed
    qed
  qed
qed

lemma fetchQuote_frame [simp]:
  "rates (snd (fetchQuote f t s)) = rates s"
  "conversions (snd (fetchQuote f t s)) = conversions s"
  by (simp_all add: fetchQuote_def Let_def setConversionInProgress_def split: option.splits)

lemma getRate_result:
  "fst (getRate f t s) = length (rates s) \<and>
   conversions (snd (getRate f t s)) = conversions s \<and>
   (\<exists>X. rates (snd (getRate f t s)) = rates s @ [\<lparr>status = X, subs = []\<rparr>])"
proof (cases "isRateValid s (toQuery f t)")
  case True
  then show ?thesis
    by (simp add: getRate_def Let_def resolveRate_def settle_rate_new)
next
  case False
  let ?s0 = "s\<lparr>rates := rates s @ [new_Deferred]\<rparr>"
  obtain p s1 where fq: "fetchQuote f t ?s0 = (p, s1)"
    by (cases "fetchQuote f t ?s0")
  have r: "rates s1 = rates s @ [new_Deferred]" and c: "conversions s1 = conversions s"
    using fetchQuote_frame [of f t ?s0] by (simp_all add: fq)
  have g: "getRate f t s =
             (length (rates s), subscribe_fetch p (RateSub (length (rates s)) (toQuery f t)) s1)"
    using False by (simp add: getRate_def Let_def fq)
  show ?thesis
  proof (cases "p < length (fetches s1)")
    case False
    then show ?thesis
      by (simp add: g subscribe_fetch_def r c new_Deferred_def)
  next
    case True
    then show ?thesis
      by (cases "status (fetches s1 ! p)")
        (simp_all add: g subscribe_fetch_def r c new_Deferred_def fire_RateSub settle_rate_def)
  qed
qed

lemma new_Deferred_simps [simp]:
  "status new_Deferred = None" "subs new_Deferred = []"
  by (simp_all add: new_Deferred_def)

lemma first_amount_closed:
  "list_all (conv_sub_below n) cbs \<Longrightarrow> first_amount n cbs = None"
  by (induction n cbs rule: first_amount.induct) auto

lemma conv_subs_closed_first_amount:
  "conv_subs_closed s \<Longrightarrow> r < length (rates s) \<Longrightarrow>
   first_amount (length (conversions s)) (subs (rates s ! r)) = None"
  by (simp add: conv_subs_closed_def list_all_length first_amount_closed)

lemma convertAmount_linked:
  assumes "conv_subs_closed s" and "convertAmount amount f t s = (c, s1)"
  shows "c = length (conversions s) \<and> linked amount (length (rates s)) c s1 \<and>
         status (rates s1 ! length (rates s)) =
           status (rates (snd (getRate f t (s\<lparr>conversions := conversions s @ [new_Deferred]\<rparr>)))
                     ! length (rates s))"
proof -
  let ?s0 = "s\<lparr>conversions := conversions s @ [new_Deferred]\<rparr>"
  let ?r = "length (rates s)"
  let ?c = "length (conversions s)"
  obtain r sg where g: "getRate f t ?s0 = (r, sg)"
    by (cases "getRate f t ?s0")
  from getRate_result [of f t ?s0] obtain X where r: "r = ?r"
    and cs: "conversions sg = conversions s @ [new_Deferred]"
    and rs: "rates sg = rates s @ [\<lparr>status = X, subs = []\<rparr>]"
    by (auto simp: g)
  have c: "c = ?c" and s1: "s1 = subscribe_rate ?r (ConvSub ?c amount) sg"
    using assms(2) by (auto simp: convertAmount_def Let_def g r)
  have others: "first_amount ?c (subs (rates s ! r')) = None" if "r' < length (rates s)" for r'
    using conv_subs_closed_first_amount [OF assms(1) that] .
  show ?thesis
  proof (cases X)
    case None
    then show ?thesis
      using others
      by (auto simp: c s1 g subscribe_rate_def rs cs linked_def nth_append nth_list_update)
  next
    case (Some out)
    then show ?thesis
      using others
      by (auto simp: c s1 g subscribe_rate_def rs cs linked_def nth_append
          fire_ConvSub settle_conversion_def)
  qed
qed

lemma linked_status:
  assumes "linked amount r c s"
  shows "(case status (rates s ! r) of
            None \<Rightarrow> status (conversions s ! c) = None
          | Some (Success data) \<Rightarrow>
              status (conversions s ! c) =
                Some (Success \<lparr>expired = expired data, rate = rate data,
                               converted = Some (amount * rate data)\<rparr>)
          | Some (Failure error) \<Rightarrow> status (conversions s ! c) = Some (Failure error))"
  using assms by (auto simp: linked_def split: option.splits outcome.splits)

text \<open>
  Claim C6. \<open>convertAmount\<close> calls \<open>getRate\<close> and follows its promise: right after the
  call and after any answer of the remote source, the deferred of \<open>convertAmount\<close> is
  pending while that of \<open>getRate\<close> is, is resolved with the same \<open>rate\<close> and \<open>expired\<close> and
  with \<open>value = amount * rate\<close> when \<open>getRate\<close> resolved, and is rejected with the same
  error when \<open>getRate\<close> was rejected. The state of the call is one in which the
  registered callbacks of \<open>convertAmount\<close> refer to existing deferreds, as in every run
  (\<open>run_closed\<close> below).
\<close>

theorem convertAmount_follows_getRate:
  assumes "conv_subs_closed s" and "convertAmount amount f t s = (c, s1)"
  shows "c = length (conversions s) \<and>
         fst (getRate f t (s\<lparr>conversions := conversions s @ [new_Deferred]\<rparr>)) = length (rates s) \<and>
         status (rates s1 ! length (rates s)) =
           status (rates (snd (getRate f t (s\<lparr>conversions := conversions s @ [new_Deferred]\<rparr>)))
                     ! length (rates s)) \<and>
         (case status (rates s1 ! length (rates s)) of
            None \<Rightarrow> status (conversions s1 ! c) = None
          | Some (Success data) \<Rightarrow>
              status (conversions s1 ! c) =
                Some (Success \<lparr>expired = expired data, rate = rate data,
                               converted = Some (amount * rate data)\<rparr>)
          | Some (Failure error) \<Rightarrow> status (conversions s1 ! c) = Some (Failure error)) \<and>
         (case status (rates (complete k result (s1\<lparr>clock := later\<rparr>)) ! length (rates s)) of
            None \<Rightarrow> status (conversions (complete k result (s1\<lparr>clock := later\<rparr>)) ! c) = None
          | Some (Success data) \<Rightarrow>
              status (conversions (complete k result (s1\<lparr>clock := later\<rparr>)) ! c) =
                Some (Success \<lparr>expired = expired data, rate = rate data,
                               converted = Some (amount * rate data)\<rparr>)
          | Some (Failure error) \<Rightarrow>
              status (conversions (complete k result (s1\<lparr>clock := later\<rparr>)) ! c) =
                Some (Failure error))"
proof -
  from convertAmount_linked [OF assms]
  have c: "c = length (conversions s)" and l: "linked amount (length (rates s)) c s1"
    and g: "status (rates s1 ! length (rates s)) =
           status (rates (snd (getRate f t (s\<lparr>conversions := conversions s @ [new_Deferred]\<rparr>)))
                     ! length (rates s))"
    by blast+
  have l': "linked amount (length (rates s)) c (s1\<lparr>clock := later\<rparr>)"
    by (rule linked_frame [OF l]) simp_all
  have r: "fst (getRate f t (s\<lparr>conversions := conversions s @ [new_Deferred]\<rparr>)) =
           length (rates s)"
    using getRate_result [of f t "s\<lparr>conversions := conversions s @ [new_Deferred]\<rparr>"] by simp
  show ?thesis
    using c r g linked_status [OF l] linked_status [OF linked_complete [OF l', of k result]]
    by blast
qed

theorem convertAmount_follows_getRate_witness:
  "status (conversions (complete 0 (Success [''USD_EUR'' \<mapsto> 5])
      ((snd (convertAmount 10 (Some ''USD'') (Some ''EUR'') (blank :: (int, string) state)))
         \<lparr>clock := 7\<rparr>)) ! 0) =
     Some (Success \<lparr>expired = False, rate = 5, converted = Some 50\<rparr>) \<and>
   status (conversions (complete 0 (Failure ''timeout'')
      ((snd (convertAmount 10 (Some ''USD'') (Some ''EUR'') (blank :: (int, string) state)))
         \<lparr>clock := 7\<rparr>)) ! 0) =
     Some (Failure ''timeout'')"
  using convertAmount_follows_getRate [of "blank :: (int, string) state" 10 "Some ''USD''"
      "Some ''EUR''" 0
      "snd (convertAmount 10 (Some ''USD'') (Some ''EUR'') (blank :: (int, string) state))"
      0 "Success [''USD_EUR'' \<mapsto> 5]" 7]
    convertAmount_follows_getRate [of "blank :: (int, string) state" 10 "Some ''USD''"
      "Some ''EUR''" 0
      "snd (convertAmount 10 (Some ''USD'') (Some ''EUR'') (blank :: (int, string) state))"
      0 "Failure ''timeout''" 7]
  by (simp add: model_defs conv_subs_closed_def)

section \<open>Persisting the cache\<close>

lemma cacheRate_stores:
  "CACHED_RATES (snd (cacheRate q v s)) =
     (CACHED_RATES s)(q \<mapsto> \<lparr>rate_value = v, rate_date = DateObject (clock s)\<rparr>)"
  by (simp add: cacheRate_def saveToLocalStorage_def Let_def
      split: prod.splits sum.splits bool.splits)

lemma cacheRate_unavailable:
  assumes "ls_refuses (localStorage s) ''js-currency-test'' (ItemText ''js-currency-test'')"
    and "CACHE_TO_LOCAL_STORAGE (SETTINGS s)"
  shows "cacheRate q v s =
     (None, s\<lparr>CACHED_RATES :=
                 (CACHED_RATES s)(q \<mapsto> \<lparr>rate_value = v, rate_date = DateObject (clock s)\<rparr>),
               console := console s @
                 [''Caching rates to local storage failed. Local storage not available'']\<rparr>)"
  using assms
  by (simp add: cacheRate_def saveToLocalStorage_def isLocalStorageAvailable_def setItem_def
      Let_def)

lemma cacheRate_mirrors:
  assumes "\<not> ls_refuses (localStorage s) ''js-currency-test'' (ItemText ''js-currency-test'')"
    and "\<not> ls_refuses (localStorage s) (LOCAL_STORAGE_VARIABLE_NAME (SETTINGS s))
           (JSON_stringify ((CACHED_RATES s)
              (q \<mapsto> \<lparr>rate_value = v, rate_date = DateObject (clock s)\<rparr>)))"
    and "CACHE_TO_LOCAL_STORAGE (SETTINGS s)"
  shows "fst (cacheRate q v s) = None \<and>
         ls_items (localStorage (snd (cacheRate q v s))) (LOCAL_STORAGE_VARIABLE_NAME (SETTINGS s)) =
           Some (JSON_stringify (CACHED_RATES (snd (cacheRate q v s))))"
  using assms
  by (simp add: cacheRate_def saveToLocalStorage_def isLocalStorageAvailable_def setItem_def
      removeItem_def Let_def)

text \<open>
  Claim C7. \<open>cacheRate\<close> stores the value under the key with the time of the call
  (\<open>cacheRate_stores\<close>), mirrors the cache when the storage takes the write
  (\<open>cacheRate_mirrors\<close>) and logs without failing when the probe of the storage fails
  (\<open>cacheRate_unavailable\<close>). But the write itself is not guarded: in a browser whose
  storage takes the probe and refuses the text of the cache, the exception leaves
  \<open>cacheRate\<close> and the callback of the request. Nothing is logged, the promise of
  \<open>fetchQuote\<close> is never settled and the query stays registered as in progress, while the
  cache in memory holds the new record.
\<close>

theorem cacheRate_write_refused:
  "(let s = (blank :: (int, string) state)
              \<lparr>localStorage :=
                 \<lparr>ls_items = Map.empty,
                  ls_refuses = (\<lambda>k item. case item of ItemText t \<Rightarrow> False
                                             | ItemJSON cache \<Rightarrow> True)\<rparr>\<rparr>;
        s1 = snd (fetchQuote (Some ''USD'') (Some ''EUR'') s);
        s2 = complete 0 (Success [''USD_EUR'' \<mapsto> 5]) s1
    in fst (cacheRate ''USD_EUR'' 5 s1) = Some QuotaExceededError \<and>
       uncaught s2 = [QuotaExceededError] \<and>
       console s2 = [] \<and>
       status (fetches s2 ! 0) = None \<and>
       getConversionInProgress s2 ''USD_EUR'' = Some 0 \<and>
       CACHED_RATES s2 ''USD_EUR'' = Some \<lparr>rate_value = 5, rate_date = DateObject 0\<rparr>)"
  by (simp add: model_defs)

section \<open>Clearing the request in progress\<close>

lemma complete_Failure_clears:
  "k < length (ajax s) \<Longrightarrow> \<not> xhr_completed (ajax s ! k) \<Longrightarrow>
   getConversionInProgress (complete k (Failure e) s) (xhr_query (ajax s ! k)) = None"
  by (simp add: complete_def Let_def fetchQuote_onAlways_def setConversionInProgress_def
      getConversionInProgress_def)

lemma fold_preserves:
  assumes "\<And>x s. P s \<Longrightarrow> P (f x s)" and "P s"
  shows "P (fold f xs s)"
  using assms(2) by (induction xs arbitrary: s) (simp_all add: assms(1))

lemma fetchQuote_keeps_entry:
  "CONVERSIONS_IN_PROGRESS s q = Some p \<Longrightarrow>
   CONVERSIONS_IN_PROGRESS (snd (fetchQuote f t s)) q = Some p"
  by (auto simp: fetchQuote_def Let_def getConversionInProgress_def setConversionInProgress_def
      split: option.splits)

lemma run_action_keeps_entry:
  "CONVERSIONS_IN_PROGRESS s q = Some p \<Longrightarrow>
   CONVERSIONS_IN_PROGRESS (run_action a s) q = Some p"
  by (cases a) (simp add: split_beta fetchQuote_keeps_entry)

lemma run_handler_keeps_entry:
  "CONVERSIONS_IN_PROGRESS s q = Some p \<Longrightarrow>
   CONVERSIONS_IN_PROGRESS (run_handler ok h s) q = Some p"
  by (cases h) (simp_all add: run_action_keeps_entry)

lemma settle_conversion_keeps_entry:
  "CONVERSIONS_IN_PROGRESS s q = Some p \<Longrightarrow>
   CONVERSIONS_IN_PROGRESS (settle_conversion c out s) q = Some p"
  unfolding settle_conversion_def
  by (auto intro!: fold_preserves [where P = "\<lambda>s. CONVERSIONS_IN_PROGRESS s q = Some p"]
      run_handler_keeps_entry)

lemma fire_rate_sub_keeps_entry:
  "CONVERSIONS_IN_PROGRESS s q = Some p \<Longrightarrow>
   CONVERSIONS_IN_PROGRESS (fire_rate_sub out cb s) q = Some p"
  by (cases cb) (simp_all add: fire_ConvSub settle_conversion_keeps_entry run_handler_keeps_entry)

lemma settle_rate_keeps_entry:
  "CONVERSIONS_IN_PROGRESS s q = Some p \<Longrightarrow>
   CONVERSIONS_IN_PROGRESS (settle_rate d out s) q = Some p"
  unfolding settle_rate_def
  by (auto intro!: fold_preserves [where P = "\<lambda>s. CONVERSIONS_IN_PROGRESS s q = Some p"]
      fire_rate_sub_keeps_entry)

lemma fire_fetch_sub_keeps_entry:
  "CONVERSIONS_IN_PROGRESS s q = Some p \<Longrightarrow>
   CONVERSIONS_IN_PROGRESS (fire_fetch_sub out cb s) q = Some p"
  by (cases cb) (simp_all add: fire_RateSub settle_rate_keeps_entry run_handler_keeps_entry)

lemma settle_fetch_keeps_entry:
  "CONVERSIONS_IN_PROGRESS s q = Some p \<Longrightarrow>
   CONVERSIONS_IN_PROGRESS (settle_fetch d out s) q = Some p"
  unfolding settle_fetch_def
  by (auto intro!: fold_preserves [where P = "\<lambda>s. CONVERSIONS_IN_PROGRESS s q = Some p"]
      fire_fetch_sub_keeps_entry)

text \<open>
  The order of the callbacks of a request: the promise is settled (and the callbacks
  registered on it are called) while the query is still registered; the entry is cleared
  afterwards.
\<close>

lemma entry_outlives_settling:
  assumes "k < length (ajax s)" and "\<not> xhr_completed (ajax s ! k)"
    and "getConversionInProgress s (xhr_query (ajax s ! k)) = Some p"
  shows "complete k (Failure e) s =
           fetchQuote_onAlways (ajax s ! k)
             (fetchQuote_onError (ajax s ! k) e
                (s\<lparr>ajax := (ajax s)[k := (ajax s ! k)\<lparr>xhr_completed := True\<rparr>]\<rparr>)) \<and>
         getConversionInProgress
           (fetchQuote_onError (ajax s ! k) e
              (s\<lparr>ajax := (ajax s)[k := (ajax s ! k)\<lparr>xhr_completed := True\<rparr>]\<rparr>))
           (xhr_query (ajax s ! k)) = Some p"
  using assms
  by (simp add: complete_def Let_def fetchQuote_onError_def getConversionInProgress_def
      settle_fetch_keeps_entry)

text \<open>
  Claim C2. A request fails while the promise of \<open>fetchQuote\<close> has a \<open>fail\<close> handler
  that asks \<open>fetchQuote\<close> for the same pair again. The promise is rejected and the handler
  runs while the query is still registered: the handler is handed the rejected promise
  \<open>0\<close> and no second request is sent. The entry is cleared after the handlers have run,
  so a call made after the delivery gets a new promise and sends a second request. The
  same happens to a \<open>done\<close> handler when the request succeeds.
\<close>

theorem fetchQuote_joins_finished:
  "(let s1 = snd (fetchQuote (Some ''USD'') (Some ''EUR'') (blank :: (int, string) state));
        s2 = subscribe_fetch 0 (FetchHandler (OnFail (Requote (Some ''USD'') (Some ''EUR'')))) s1;
        s3 = complete 0 (Failure ''timeout'') s2;
        t2 = subscribe_fetch 0 (FetchHandler (OnDone (Requote (Some ''USD'') (Some ''EUR'')))) s1;
        t3 = complete 0 (Success [''USD_EUR'' \<mapsto> 5]) t2
    in fst (fetchQuote (Some ''USD'') (Some ''EUR'') (blank :: (int, string) state)) = 0 \<and>
       status (fetches s3 ! 0) = Some (Failure ''timeout'') \<and>
       handed s3 = [0] \<and>
       length (ajax s3) = 1 \<and>
       getConversionInProgress s3 ''USD_EUR'' = None \<and>
       fst (fetchQuote (Some ''USD'') (Some ''EUR'') s3) = 1 \<and>
       length (ajax (snd (fetchQuote (Some ''USD'') (Some ''EUR'') s3))) = 2 \<and>
       status (fetches t3 ! 0) = Some (Success 5) \<and>
       handed t3 = [0] \<and>
       length (ajax t3) = 1 \<and>
       getConversionInProgress t3 ''USD_EUR'' = None)"
  by (simp add: model_defs)

section \<open>Registered callbacks refer to existing deferreds\<close>

lemma list_all_update:
  "list_all P xs \<Longrightarrow> P x \<Longrightarrow> list_all P (xs[i := x])"
  by (induction xs arbitrary: i) (auto split: nat.splits)

lemma closed_frame:
  "closed s \<Longrightarrow> fetches s' = fetches s \<Longrightarrow> rates s' = rates s \<Longrightarrow>
   conversions s' = conversions s \<Longrightarrow> closed s'"
  by (simp add: closed_def rate_subs_closed_def conv_subs_closed_def)

lemma closed_new_fetch:
  "closed s \<Longrightarrow> closed (s\<lparr>fetches := fetches s @ [new_Deferred]\<rparr>)"
  by (simp add: closed_def rate_subs_closed_def conv_subs_closed_def)

lemma closed_settled_fetch:
  "closed s \<Longrightarrow> closed (s\<lparr>fetches := (fetches s)[p := \<lparr>status = st, subs = []\<rparr>]\<rparr>)"
  by (simp add: closed_def rate_subs_closed_def conv_subs_closed_def list_all_update)

lemma closed_settled_rate:
  "closed s \<Longrightarrow> closed (s\<lparr>rates := (rates s)[d := \<lparr>status = st, subs = []\<rparr>]\<rparr>)"
  by (simp add: closed_def rate_subs_closed_def conv_subs_closed_def list_all_update)

lemma closed_settled_conversion:
  "closed s \<Longrightarrow> closed (s\<lparr>conversions := (conversions s)[c := D]\<rparr>)"
  by (simp add: closed_def rate_subs_closed_def conv_subs_closed_def)

lemma rate_sub_below_Suc:
  "rate_sub_below n cb \<Longrightarrow> rate_sub_below (Suc n) cb"
  by (cases cb) simp_all

lemma conv_sub_below_Suc:
  "conv_sub_below n cb \<Longrightarrow> conv_sub_below (Suc n) cb"
  by (cases cb) simp_all

lemma closed_new_rate:
  "closed s \<Longrightarrow> closed (s\<lparr>rates := rates s @ [new_Deferred]\<rparr>)"
  by (auto simp: closed_def rate_subs_closed_def conv_subs_closed_def list_all_iff
      rate_sub_below_Suc)

lemma closed_new_conversion:
  "closed s \<Longrightarrow> closed (s\<lparr>conversions := conversions s @ [new_Deferred]\<rparr>)"
  by (auto simp: closed_def rate_subs_closed_def conv_subs_closed_def list_all_iff
      conv_sub_below_Suc)

lemma closed_fetchQuote:
  "closed s \<Longrightarrow> closed (snd (fetchQuote f t s))"
  by (auto simp: fetchQuote_def Let_def setConversionInProgress_def split: option.splits
      intro: closed_frame [OF closed_new_fetch])

lemma closed_run_action:
  "closed s \<Longrightarrow> closed (run_action a s)"
  by (cases a) (auto simp: split_beta intro: closed_frame [OF closed_fetchQuote])

lemma closed_run_handler:
  "closed s \<Longrightarrow> closed (run_handler ok h s)"
  by (cases h) (simp_all add: closed_run_action)

lemma closed_settle_conversion:
  "closed s \<Longrightarrow> closed (settle_conversion c out s)"
  unfolding settle_conversion_def
  by (auto intro!: fold_preserves [where P = closed] closed_run_handler
      closed_settled_conversion)

lemma closed_fire_rate_sub:
  "closed s \<Longrightarrow> closed (fire_rate_sub out cb s)"
  by (cases cb) (simp_all add: fire_ConvSub closed_settle_conversion closed_run_handler)

lemma closed_settle_rate:
  "closed s \<Longrightarrow> closed (settle_rate d out s)"
  unfolding settle_rate_def
  by (auto intro!: fold_preserves [where P = closed] closed_fire_rate_sub closed_settled_rate)

lemma closed_fire_fetch_sub:
  "closed s \<Longrightarrow> closed (fire_fetch_sub out cb s)"
  by (cases cb) (simp_all add: fire_RateSub closed_settle_rate closed_run_handler)

lemma closed_settle_fetch:
  "closed s \<Longrightarrow> closed (settle_fetch p out s)"
  unfolding settle_fetch_def
  by (auto intro!: fold_preserves [where P = closed] closed_fire_fetch_sub closed_settled_fetch)

lemma closed_cacheRate:
  "closed s \<Longrightarrow> closed (snd (cacheRate q v s))"
  by (rule closed_frame) simp_all

lemma closed_complete:
  assumes "closed s"
  shows "closed (complete k result s)"
proof (cases "k < length (ajax s) \<and> \<not> xhr_completed (ajax s ! k)")
  case False
  then show ?thesis
    using assms by (auto simp: complete_def)
next
  case True
  let ?x = "ajax s ! k"
  let ?s0 = "s\<lparr>ajax := (ajax s)[k := ?x\<lparr>xhr_completed := True\<rparr>]\<rparr>"
  have c0: "closed ?s0"
    by (rule closed_frame [OF assms]) simp_all
  show ?thesis
  proof (cases result)
    case (Failure error)
    have "closed (fetchQuote_onAlways ?x (fetchQuote_onError ?x error ?s0))"
      by (rule closed_frame [OF closed_settle_fetch [OF c0, of "xhr_deferred ?x" "Failure error"]])
        (simp_all add: fetchQuote_onError_def fetchQuote_onAlways_def
          setConversionInProgress_def)
    then show ?thesis
      using True Failure by (simp add: complete_def Let_def)
  next
    case (Success response)
    show ?thesis
    proof (cases "response (xhr_query ?x)")
      case None
      have "closed (?s0\<lparr>uncaught := uncaught ?s0 @ [TypeError]\<rparr>)"
        by (rule closed_frame [OF c0]) simp_all
      then show ?thesis
        using True Success None
        by (simp add: complete_def Let_def fetchQuote_onSuccess_def)
    next
      case (Some v)
      obtain ex s1 where c: "cacheRate (xhr_query ?x) v ?s0 = (ex, s1)"
        by (cases "cacheRate (xhr_query ?x) v ?s0")
      have c1: "closed s1"
        using closed_cacheRate [OF c0, of "xhr_query ?x" v] by (simp add: c)
      show ?thesis
      proof (cases ex)
        case None
        have "closed (fetchQuote_onAlways ?x (settle_fetch (xhr_deferred ?x) (Success v) s1))"
          by (rule closed_frame [OF closed_settle_fetch [OF c1, of "xhr_deferred ?x" "Success v"]])
            (simp_all add: fetchQuote_onAlways_def setConversionInProgress_def)
        then show ?thesis
          using True Success Some c None
          by (simp add: complete_def Let_def fetchQuote_onSuccess_def)
      next
        case (Some e)
        have "closed (s1\<lparr>uncaught := uncaught s1 @ [e]\<rparr>)"
          by (rule closed_frame [OF c1]) simp_all
        then show ?thesis
          using True Success \<open>response (xhr_query ?x) = Some v\<close> c Some
          by (simp add: complete_def Let_def fetchQuote_onSuccess_def)
      qed
    qed
  qed
qed

lemma closed_subscribe_fetch:
  assumes "closed s" and "rate_sub_below (length (rates s)) cb"
  shows "closed (subscribe_fetch p cb s)"
proof (cases "p < length (fetches s)")
  case False
  then show ?thesis
    using assms(1) by (simp add: subscribe_fetch_def)
next
  case True
  show ?thesis
  proof (cases "status (fetches s ! p)")
    case (Some out)
    then show ?thesis
      using True assms(1) by (simp add: subscribe_fetch_def closed_fire_fetch_sub)
  next
    case None
    have "list_all (rate_sub_below (length (rates s))) (subs (fetches s ! p))"
      using assms(1) True by (simp add: closed_def rate_subs_closed_def list_all_length)
    then show ?thesis
      using True None assms
      by (simp add: subscribe_fetch_def closed_def rate_subs_closed_def conv_subs_closed_def
          list_all_update)
  qed
qed

lemma closed_subscribe_rate:
  assumes "closed s" and "conv_sub_below (length (conversions s)) cb"
  shows "closed (subscribe_rate p cb s)"
proof (cases "p < length (rates s)")
  case False
  then show ?thesis
    using assms(1) by (simp add: subscribe_rate_def)
next
  case True
  show ?thesis
  proof (cases "status (rates s ! p)")
    case (Some out)
    then show ?thesis
      using True assms(1) by (simp add: subscribe_rate_def closed_fire_rate_sub)
  next
    case None
    have "list_all (conv_sub_below (length (conversions s))) (subs (rates s ! p))"
      using assms(1) True by (simp add: closed_def conv_subs_closed_def list_all_length)
    then show ?thesis
      using True None assms
      by (simp add: subscribe_rate_def closed_def rate_subs_closed_def conv_subs_closed_def
          list_all_update)
  qed
qed

lemma closed_subscribe_conversion:
  assumes "closed s"
  shows "closed (subscribe_conversion p h s)"
proof (cases "p < length (conversions s)")
  case False
  then show ?thesis
    using assms by (simp add: subscribe_conversion_def)
next
  case True
  show ?thesis
  proof (cases "status (conversions s ! p)")
    case (Some out)
    then show ?thesis
      using True assms by (simp add: subscribe_conversion_def closed_run_handler)
  next
    case None
    then show ?thesis
      using True closed_settled_conversion [OF assms]
      by (simp add: subscribe_conversion_def)
  qed
qed

lemma closed_getRate:
  assumes "closed s"
  shows "closed (snd (getRate f t s))"
proof -
  let ?s0 = "s\<lparr>rates := rates s @ [new_Deferred]\<rparr>"
  have c0: "closed ?s0"
    by (rule closed_new_rate [OF assms])
  show ?thesis
  proof (cases "isRateValid s (toQuery f t)")
    case True
    then show ?thesis
      using closed_settle_rate [OF c0]
      by (simp add: getRate_def Let_def resolveRate_def)
  next
    case False
    obtain p s1 where fq: "fetchQuote f t ?s0 = (p, s1)"
      by (cases "fetchQuote f t ?s0")
    have c1: "closed s1"
      using closed_fetchQuote [OF c0, of f t] by (simp add: fq)
    have r: "rates s1 = rates s @ [new_Deferred]"
      using fetchQuote_frame(1) [of f t ?s0] by (simp add: fq)
    have "closed (subscribe_fetch p (RateSub (length (rates s)) (toQuery f t)) s1)"
      by (rule closed_subscribe_fetch [OF c1]) (simp add: r)
    then show ?thesis
      using False by (simp add: getRate_def Let_def fq)
  qed
qed

lemma closed_convertAmount:
  assumes "closed s"
  shows "closed (snd (convertAmount amount f t s))"
proof -
  let ?s0 = "s\<lparr>conversions := conversions s @ [new_Deferred]\<rparr>"
  have c0: "closed ?s0"
    by (rule closed_new_conversion [OF assms])
  obtain r sg where g: "getRate f t ?s0 = (r, sg)"
    by (cases "getRate f t ?s0")
  have cg: "closed sg"
    using closed_getRate [OF c0, of f t] by (simp add: g)
  have cs: "conversions sg = conversions s @ [new_Deferred]"
    using getRate_result [of f t ?s0] by (simp add: g)
  have "closed (subscribe_rate r (ConvSub (length (conversions s)) amount) sg)"
    by (rule closed_subscribe_rate [OF cg]) (simp add: cs)
  then show ?thesis
    by (simp add: convertAmount_def Let_def g)
qed

lemma closed_step:
  "closed s \<Longrightarrow> closed (step ev s)"
proof (cases ev)
  case (Tick now)
  then show "closed s \<Longrightarrow> ?thesis"
    by (auto intro: closed_frame)
next
  case (Call_config opts)
  then show "closed s \<Longrightarrow> ?thesis"
    by (auto simp: config_def intro: closed_frame)
qed (simp_all add: closed_fetchQuote closed_getRate closed_convertAmount
    closed_subscribe_fetch closed_subscribe_rate closed_subscribe_conversion closed_complete)

lemma closed_startup:
  "startup now ls = Inr s \<Longrightarrow> closed s"
  by (auto simp: startup_def closed_def rate_subs_closed_def conv_subs_closed_def
      split: sum.splits if_splits)

lemma closed_run:
  "closed s \<Longrightarrow> closed (fold step evs s)"
  by (rule fold_preserves [where P = closed]) (simp_all add: closed_step)


lemma startup_blank:
  "startup 0 \<lparr>ls_items = Map.empty, ls_refuses = (\<lambda>k i. False)\<rparr> = Inr blank"
  by (simp add: startup_def blank_def default_settings_def getFromLocalStorage_def
      isLocalStorageAvailable_def setItem_def removeItem_def)

text \<open>
  The hypotheses \<open>rate_subs_closed\<close> and \<open>conv_subs_closed\<close> of the theorems above hold in
  every state that a run reaches from a freshly loaded module.
\<close>

lemma run_closed:
  "startup now ls = Inr s \<Longrightarrow>
   rate_subs_closed (fold step evs s) \<and> conv_subs_closed (fold step evs s)"
  using closed_run [OF closed_startup, of now ls s evs] by (simp add: closed_def)

end
